theory Spec2Isabelle
  imports Main "HOL-Library.Sublist"
begin

section \<open>Strings of the host language\<close>

text \<open>
  Texts are modelled as \<^typ>\<open>string\<close>: a character is a code unit below 256, that is
  ASCII and the Latin-1 supplement; code units from 256 on are not represented. On
  these texts the methods of the host language that the console uses are written out
  as the language defines them: \<open>startsWith\<close>, \<open>includes\<close>, \<open>toLowerCase\<close>, \<open>trim\<close>,
  \<open>Array.join\<close> and the one regular-expression replacement of the connect routine. The names of the source are kept; three of them are taken here and carry a
  suffix: \<open>includes_str\<close> for \<open>includes\<close>, \<open>output_text\<close> for the field \<open>output\<close> of an entry,
  \<open>filterSt\<close> for the state variable \<open>filter\<close>.
\<close>

fun startsWith :: "string \<Rightarrow> string \<Rightarrow> bool" where
  "startsWith s [] = True"
| "startsWith [] (p # ps) = False"
| "startsWith (c # cs) (p # ps) = (c = p \<and> startsWith cs ps)"

fun includes_str :: "string \<Rightarrow> string \<Rightarrow> bool" where
  "includes_str [] t = (t = [])"
| "includes_str (c # cs) t = (startsWith (c # cs) t \<or> includes_str cs t)"

text \<open>
  \<open>toLowerCase\<close>: below 256 the capital letters are \<open>A\<close> to \<open>Z\<close> (65 to 90) and the
  accented capitals 192 to 222 without the multiplication sign 215; each has its small
  letter 32 places further on. Every other code unit below 256 is left as it is.
\<close>

definition lowerChar :: "char \<Rightarrow> char" where
  "lowerChar c =
     (let n = (of_char c :: nat)
      in if 65 \<le> n \<and> n \<le> 90 then char_of (n + 32)
         else if 192 \<le> n \<and> n \<le> 222 \<and> n \<noteq> 215 then char_of (n + 32)
         else c)"

definition toLowerCase :: "string \<Rightarrow> string" where
  "toLowerCase s = map lowerChar s"

text \<open>
  \<open>trim\<close> strips white space and line terminators from both ends; below 256 these are
  the tab, the line feed, the vertical tab, the form feed, the carriage return, the
  space and the no-break space (160).
\<close>

definition isWhiteSpace :: "char \<Rightarrow> bool" where
  "isWhiteSpace c = ((of_char c :: nat) \<in> {9, 10, 11, 12, 13, 32, 160})"

definition trim :: "string \<Rightarrow> string" where
  "trim s = rev (dropWhile isWhiteSpace (rev (dropWhile isWhiteSpace s)))"

fun join :: "string \<Rightarrow> string list \<Rightarrow> string" where
  "join sep [] = []"
| "join sep [x] = x"
| "join sep (x # y # ys) = x @ sep @ join sep (y # ys)"

text \<open>\<open>s.replace(/^(http:\/\/|https:\/\/)/, '')\<close>: one leading scheme prefix is cut off.\<close>

definition stripScheme :: "string \<Rightarrow> string" where
  "stripScheme s =
     (if startsWith s ''http://'' then drop 7 s
      else if startsWith s ''https://'' then drop 8 s
      else s)"

text \<open>A string in a condition is true when it is not empty; an absent value is false.\<close>

definition truthy :: "string option \<Rightarrow> bool" where
  "truthy v = (case v of None \<Rightarrow> False | Some s \<Rightarrow> s \<noteq> [])"

section \<open>The console component: data\<close>

record ConsoleEntry =
  output_text :: string

datatype target = service | node

record ServiceConsoleProps =
  webSocketPath :: string
  serviceName :: "string option"
  disableCommands :: bool
  type :: "target option"

text \<open>
  A rejected promise or a thrown exception is a value; the console only ever logs it, so
  its message is all that is kept.
\<close>

datatype error = Error string

text \<open>The platform's socket object: its address, its ready state and the handlers set on it.\<close>

datatype readyState = CONNECTING | OPEN | CLOSING | CLOSED

record WebSocket =
  url :: string
  readyState :: readyState
  onmessage :: bool
  onerror :: bool

text \<open>
  An asynchronous call of the component is suspended at each \<open>await\<close>. A suspended call
  keeps the props of the render that started it and the values it has bound so far.
  Each call has a number, its position in the list of calls.
\<close>

datatype task =
    AwaitLogLines ServiceConsoleProps
  | AwaitTicket ServiceConsoleProps
  | AwaitCookies ServiceConsoleProps string
  | AwaitExecute
  | Finished

text \<open>What the component does to the outside, in order; the number is the call that did it.\<close>

datatype effect =
    LogLines nat string
  | CreateTicket nat "target option"
  | GetCookies nat
  | Execute nat string string
  | NewWebSocket nat string
  | Close nat
  | Toast string

text \<open>
  The state of one mounted component: the four state variables, the two refs (the socket
  ref holds the position of a socket in \<open>sockets\<close>), the sockets constructed so far, the
  suspended calls and the effects so far.
\<close>

record console =
  history :: "ConsoleEntry list"
  input :: string
  filterSt :: string
  socketBlocked :: bool
  hasFetchedLogsRef :: bool
  socketRef :: "nat option"
  sockets :: "WebSocket list"
  tasks :: "task list"
  effects :: "effect list"

definition initial :: console where
  "initial = \<lparr> history = [], input = [], filterSt = ''ALL'', socketBlocked = False,
     hasFetchedLogsRef = False, socketRef = None, sockets = [], tasks = [], effects = [] \<rparr>"

section \<open>The log buffer: export, clear, filtered view\<close>

text \<open>\<open>downloadLogs\<close>: the name and the content of the file offered for download.\<close>

definition downloadLogs :: "console \<Rightarrow> string \<times> string" where
  "downloadLogs st = (''console-logs.txt'', join [CHR 0x0A] (map output_text (history st)))"

definition clearLogs :: "console \<Rightarrow> console" where
  "clearLogs st = st\<lparr>history := []\<rparr>"

definition filteredHistory :: "console \<Rightarrow> ConsoleEntry list" where
  "filteredHistory st =
     filter (\<lambda>entry. if filterSt st = ''ALL'' then True
                     else includes_str (toLowerCase (output_text entry)) (toLowerCase (filterSt st)))
       (history st)"

text \<open>The alert the component renders: it is shown exactly when \<open>socketBlocked\<close> is set.\<close>

definition alertShown :: "console \<Rightarrow> string option" where
  "alertShown st = (if socketBlocked st then Some ''protocolMismatch'' else None)"

text \<open>The words of the specification: a text contains a level, letter case ignored.\<close>

definition containsLevel :: "string \<Rightarrow> string \<Rightarrow> bool" where
  "containsLevel text L = (\<exists>pre suf. toLowerCase text = pre @ toLowerCase L @ suf)"

section \<open>The platform\<close>

text \<open>
  What the component reads from the browser and does not define itself: the origin of the
  page, the percent-decoding built-in (\<open>None\<close> when it throws) and whether the socket
  constructor accepts an address (it throws otherwise). Every theorem below holds for
  all three.
\<close>

record platform =
  origin :: string
  decodeURIComponent :: "string \<Rightarrow> string option"
  constructible :: "string \<Rightarrow> bool"

section \<open>The connect routine\<close>

definition toast_error :: "string \<Rightarrow> console \<Rightarrow> console" where
  "toast_error key st = st\<lparr>effects := effects st @ [Toast key]\<rparr>"

definition settle :: "nat \<Rightarrow> task \<Rightarrow> console \<Rightarrow> console" where
  "settle i t st = st\<lparr>tasks := (tasks st)[i := t]\<rparr>"

text \<open>The outer \<open>catch\<close> of \<open>initializeSocket\<close>.\<close>

definition initializeSocket_catch :: "nat \<Rightarrow> console \<Rightarrow> console" where
  "initializeSocket_catch i st =
     settle i Finished (toast_error ''connectionError'' (st\<lparr>socketBlocked := True\<rparr>))"

text \<open>\<open>initializeSocket\<close>, from its entry to the first \<open>await\<close>.\<close>

definition initializeSocket :: "ServiceConsoleProps \<Rightarrow> nat \<Rightarrow> console \<Rightarrow> console" where
  "initializeSocket p i st =
     (if socketRef st \<noteq> None then settle i Finished st
      else settle i (AwaitTicket p) (st\<lparr>effects := effects st @ [CreateTicket i (type p)]\<rparr>))"

text \<open>\<open>initializeSocket\<close>, resumed with the outcome of \<open>authApi.createTicket\<close>.\<close>

definition initializeSocket_ticket ::
  "ServiceConsoleProps \<Rightarrow> nat \<Rightarrow> error + string \<Rightarrow> console \<Rightarrow> console" where
  "initializeSocket_ticket p i r st =
     (case r of
        Inl e \<Rightarrow> initializeSocket_catch i st
      | Inr ticket \<Rightarrow>
          settle i (AwaitCookies p ticket) (st\<lparr>effects := effects st @ [GetCookies i]\<rparr>))"

definition protocolOf :: "string \<Rightarrow> string" where
  "protocolOf a = (if startsWith a ''https'' then ''wss'' else ''ws'')"

text \<open>
  \<open>initializeSocket\<close>, resumed with the outcome of \<open>authApi.getCookies\<close>, to its end: the
  address is decoded, the two protocols are compared, and only then is the socket
  constructed and are its handlers set.
\<close>

definition initializeSocket_cookies ::
  "platform \<Rightarrow> ServiceConsoleProps \<Rightarrow> nat \<Rightarrow> string \<Rightarrow> error + (string \<times> string) list
     \<Rightarrow> console \<Rightarrow> console" where
  "initializeSocket_cookies pf p i ticket r st =
     (case r of
        Inl e \<Rightarrow> initializeSocket_catch i st
      | Inr cookies \<Rightarrow>
         (case decodeURIComponent pf
                 (case map_of cookies ''add'' of None \<Rightarrow> ''undefined'' | Some v \<Rightarrow> v) of
            None \<Rightarrow> initializeSocket_catch i st
          | Some cookieAddress \<Rightarrow>
             (let protocol = protocolOf cookieAddress;
                  address = stripScheme cookieAddress;
                  domainUrlProtocol = protocolOf (origin pf)
              in if protocol \<noteq> domainUrlProtocol
                 then settle i Finished (st\<lparr>socketBlocked := True\<rparr>)
                 else
                  (let socketUrl =
                         protocol @ ''://'' @ address @ webSocketPath p @ ''?ticket='' @ ticket;
                       st1 = st\<lparr>effects := effects st @ [NewWebSocket i socketUrl]\<rparr>
                   in if \<not> constructible pf socketUrl
                      then settle i Finished
                             (toast_error ''connectionError'' (st1\<lparr>socketBlocked := True\<rparr>))
                      else settle i Finished
                             (st1\<lparr>socketRef := Some (length (sockets st1)),
                                  sockets := sockets st1 @
                                    [\<lparr>url = socketUrl, readyState = CONNECTING,
                                      onmessage = True, onerror = True\<rparr>]\<rparr>)))))"

section \<open>The effect: seed, then connect; and its cleanup\<close>

text \<open>\<open>cachedLogLines\<close>, from its entry to its \<open>await\<close> or its return.\<close>

definition cachedLogLines :: "ServiceConsoleProps \<Rightarrow> nat \<Rightarrow> console \<Rightarrow> console" where
  "cachedLogLines p i st =
     (if hasFetchedLogsRef st then st
      else
       (let st1 = st\<lparr>hasFetchedLogsRef := True\<rparr>
        in case (type p, serviceName p) of
             (Some service, Some name) \<Rightarrow>
               if name \<noteq> []
               then settle i (AwaitLogLines p) (st1\<lparr>effects := effects st1 @ [LogLines i name]\<rparr>)
               else st1
           | _ \<Rightarrow> st1))"

text \<open>
  \<open>cachedLogLines\<close>, resumed with the outcome of \<open>serviceApi.logLines\<close>; when it has
  returned, the \<open>then\<close> of the effect calls \<open>initializeSocket\<close>.
\<close>

definition cachedLogLines_resume ::
  "ServiceConsoleProps \<Rightarrow> nat \<Rightarrow> error + string list \<Rightarrow> console \<Rightarrow> console" where
  "cachedLogLines_resume p i r st =
     initializeSocket p i
       (case r of
          Inr lines \<Rightarrow> st\<lparr>history := map (\<lambda>line. \<lparr>output_text = line\<rparr>) lines\<rparr>
        | Inl e \<Rightarrow> toast_error ''fetchError'' st)"

text \<open>
  The body of the effect, \<open>cachedLogLines().then(initializeSocket)\<close>: a new call is
  numbered; when \<open>cachedLogLines\<close> returns without waiting, \<open>initializeSocket\<close> follows at
  once.
\<close>

definition mount :: "ServiceConsoleProps \<Rightarrow> console \<Rightarrow> console" where
  "mount p st =
     (let i = length (tasks st);
          st1 = cachedLogLines p i (st\<lparr>tasks := tasks st @ [Finished]\<rparr>)
      in if tasks st1 ! i = Finished then initializeSocket p i st1 else st1)"

text \<open>
  \<open>close()\<close> of the platform: a socket that is connecting or open starts closing, any
  other is left as it is.
\<close>

definition close :: "WebSocket \<Rightarrow> WebSocket" where
  "close ws =
     (if readyState ws = CONNECTING \<or> readyState ws = OPEN
      then ws\<lparr>readyState := CLOSING\<rparr> else ws)"

text \<open>The cleanup that the effect returns.\<close>

definition cleanup :: "console \<Rightarrow> console" where
  "cleanup st =
     (case socketRef st of
        None \<Rightarrow> st
      | Some k \<Rightarrow>
          if k < length (sockets st)
          then st\<lparr>sockets := (sockets st)[k := close (sockets st ! k)]\<rparr>
          else st)"

section \<open>Command submission\<close>

text \<open>\<open>handleSubmit\<close>, from its entry to its \<open>await\<close> or its return.\<close>

definition handleSubmit :: "ServiceConsoleProps \<Rightarrow> console \<Rightarrow> console" where
  "handleSubmit p st =
     (case serviceName p of
        None \<Rightarrow> st
      | Some name \<Rightarrow>
          if trim (input st) \<noteq> [] \<and> name \<noteq> []
          then st\<lparr>tasks := tasks st @ [AwaitExecute],
                  effects := effects st @ [Execute (length (tasks st)) name (input st)]\<rparr>
          else st)"

text \<open>\<open>handleSubmit\<close>, resumed with the outcome of \<open>serviceApi.execute\<close>.\<close>

definition handleSubmit_resume :: "nat \<Rightarrow> error + unit \<Rightarrow> console \<Rightarrow> console" where
  "handleSubmit_resume i r st =
     settle i Finished
       (case r of
          Inr u \<Rightarrow> st\<lparr>input := []\<rparr>
        | Inl e \<Rightarrow> toast_error ''commandError'' st)"

section \<open>Events and traces\<close>

text \<open>
  One event is one turn of the event loop: a lifecycle call of the framework, the
  settling of a promise some call waits for, an event of a socket, or an action of the
  operator. The platform fires \<open>message\<close> only on an open socket; the handlers are those
  of \<open>initializeSocket\<close>. An event that nothing waits for changes nothing.

  The input field and the form are rendered only when commands are not disabled, so
  typing and submitting happen only then; an event carries the props of the render it
  happens in.

  A promise that settles with a value the code cannot read (a reply that is no object, a
  cache without lines) counts as a failure: reading it throws into the same \<open>catch\<close>.
  \<open>Cleanup\<close> is the cleanup of the effect, which the framework runs before it runs the
  effect again and when the component is unmounted. The component of the model stays
  mounted; that the framework drops the state updates of an unmounted component is not
  represented.
\<close>

datatype event =
    Mount ServiceConsoleProps
  | Cleanup
  | LogLinesDone nat "error + string list"
  | TicketDone nat "error + string"
  | CookiesDone nat "error + (string \<times> string) list"
  | ExecuteDone nat "error + unit"
  | SocketOpen nat
  | SocketMessage nat string
  | SocketError nat
  | SocketClosed nat
  | SetInput ServiceConsoleProps string
  | SetFilter string
  | ClearLogs
  | Submit ServiceConsoleProps

definition waiting :: "nat \<Rightarrow> console \<Rightarrow> task" where
  "waiting i st = (if i < length (tasks st) then tasks st ! i else Finished)"

definition socket_onmessage :: "string \<Rightarrow> console \<Rightarrow> console" where
  "socket_onmessage d st = st\<lparr>history := history st @ [\<lparr>output_text = d\<rparr>]\<rparr>"

definition socket_onerror :: "console \<Rightarrow> console" where
  "socket_onerror st = toast_error ''connectionError'' st"

fun step :: "platform \<Rightarrow> event \<Rightarrow> console \<Rightarrow> console" where
  "step pf (Mount p) st = mount p st"
| "step pf Cleanup st = cleanup st"
| "step pf (LogLinesDone i r) st =
     (case waiting i st of AwaitLogLines p \<Rightarrow> cachedLogLines_resume p i r st | _ \<Rightarrow> st)"
| "step pf (TicketDone i r) st =
     (case waiting i st of AwaitTicket p \<Rightarrow> initializeSocket_ticket p i r st | _ \<Rightarrow> st)"
| "step pf (CookiesDone i r) st =
     (case waiting i st of
        AwaitCookies p ticket \<Rightarrow> initializeSocket_cookies pf p i ticket r st
      | _ \<Rightarrow> st)"
| "step pf (ExecuteDone i r) st =
     (case waiting i st of AwaitExecute \<Rightarrow> handleSubmit_resume i r st | _ \<Rightarrow> st)"
| "step pf (SocketOpen k) st =
     (if k < length (sockets st) \<and> readyState (sockets st ! k) = CONNECTING
      then st\<lparr>sockets := (sockets st)[k := (sockets st ! k)\<lparr>readyState := OPEN\<rparr>]\<rparr>
      else st)"
| "step pf (SocketMessage k d) st =
     (if k < length (sockets st) \<and> readyState (sockets st ! k) = OPEN
         \<and> onmessage (sockets st ! k)
      then socket_onmessage d st else st)"
| "step pf (SocketError k) st =
     (if k < length (sockets st) \<and> onerror (sockets st ! k) then socket_onerror st else st)"
| "step pf (SocketClosed k) st =
     (if k < length (sockets st)
      then st\<lparr>sockets := (sockets st)[k := (sockets st ! k)\<lparr>readyState := CLOSED\<rparr>]\<rparr>
      else st)"
| "step pf (SetInput p s) st = (if disableCommands p then st else st\<lparr>input := s\<rparr>)"
| "step pf (SetFilter f) st = st\<lparr>filterSt := f\<rparr>"
| "step pf ClearLogs st = clearLogs st"
| "step pf (Submit p) st = (if disableCommands p then st else handleSubmit p st)"

fun run :: "platform \<Rightarrow> event list \<Rightarrow> console \<Rightarrow> console" where
  "run pf [] st = st"
| "run pf (e # es) st = run pf es (step pf e st)"

section \<open>The server-side request helpers\<close>

datatype json = JNull | JString string | JObject "(string \<times> json) list"

datatype api_error =
    Unauthorized
  | HttpError nat
  | EmptyResponse
  | JsonParseError string
  | URIError
  | FetchFailed string

record Request =
  req_method :: string
  req_url :: string
  req_authorization :: string
  req_body :: "string option"

record Response =
  ok :: bool
  status :: nat
  body_text :: string

text \<open>
  What the helpers take from their runtime: the network, the percent-decoding built-in,
  the JSON reader and writer and the encoding of query parameters.
\<close>

record server =
  fetch :: "Request \<Rightarrow> api_error + Response"
  decodeURI :: "string \<Rightarrow> string option"
  json_parse :: "string \<Rightarrow> json option"
  json_stringify :: "json \<Rightarrow> string"
  searchParams :: "(string \<times> string) list \<Rightarrow> string"

definition handleResponse :: "server \<Rightarrow> Response \<Rightarrow> api_error + json" where
  "handleResponse sv response =
     (if \<not> ok response then Inl (HttpError (status response))
      else if body_text response = [] then Inl EmptyResponse
      else case json_parse sv (body_text response) of
             None \<Rightarrow> Inl (JsonParseError (body_text response))
           | Some v \<Rightarrow> Inr v)"

text \<open>
  A helper returns the requests it has sent and its result. The cookie store is the list
  of the session's cookies by name.
\<close>

definition send :: "server \<Rightarrow> Request \<Rightarrow> Request list \<times> (api_error + json)" where
  "send sv req =
     (case fetch sv req of
        Inl e \<Rightarrow> ([req], Inl e)
      | Inr response \<Rightarrow> ([req], handleResponse sv response))"

definition serverApiGet ::
  "server \<Rightarrow> (string \<times> string) list \<Rightarrow> string \<Rightarrow> (string \<times> string) list option
     \<Rightarrow> Request list \<times> (api_error + json)" where
  "serverApiGet sv cookie u params =
     (let queryString = (case params of None \<Rightarrow> [] | Some ps \<Rightarrow> ''?'' @ searchParams sv ps);
          accessToken = map_of cookie ''at'';
          address = map_of cookie ''add''
      in case (accessToken, address) of
           (Some at, Some add) \<Rightarrow>
             if at = [] \<or> add = [] then ([], Inl Unauthorized)
             else (case decodeURI sv add of
                     None \<Rightarrow> ([], Inl URIError)
                   | Some a \<Rightarrow>
                       send sv \<lparr>req_method = ''GET'', req_url = a @ u @ queryString,
                                req_authorization = ''Bearer '' @ at, req_body = None\<rparr>)
         | _ \<Rightarrow> ([], Inl Unauthorized))"

definition serverApiPost ::
  "server \<Rightarrow> (string \<times> string) list \<Rightarrow> string \<Rightarrow> json
     \<Rightarrow> Request list \<times> (api_error + json)" where
  "serverApiPost sv cookie u body =
     (let accessToken = map_of cookie ''at'';
          address = map_of cookie ''add''
      in case (accessToken, address) of
           (Some at, Some add) \<Rightarrow>
             if at = [] \<or> add = [] then ([], Inl Unauthorized)
             else (case decodeURI sv add of
                     None \<Rightarrow> ([], Inl URIError)
                   | Some a \<Rightarrow>
                       send sv \<lparr>req_method = ''POST'', req_url = a @ u,
                                req_authorization = ''Bearer '' @ at,
                                req_body = Some (json_stringify sv body)\<rparr>)
         | _ \<Rightarrow> ([], Inl Unauthorized))"

definition targetName :: "target \<Rightarrow> string" where
  "targetName t = (case t of service \<Rightarrow> ''service'' | node \<Rightarrow> ''node'')"

definition serverAuthApi_checkToken ::
  "server \<Rightarrow> (string \<times> string) list \<Rightarrow> Request list \<times> (api_error + json)" where
  "serverAuthApi_checkToken sv cookie = serverApiPost sv cookie ''/api/auth/jwt'' (JObject [])"

definition serverAuthApi_createTicket ::
  "server \<Rightarrow> (string \<times> string) list \<Rightarrow> target \<Rightarrow> Request list \<times> (api_error + json)" where
  "serverAuthApi_createTicket sv cookie t =
     serverApiPost sv cookie ''/api/auth/ticket'' (JObject [(''type'', JString (targetName t))])"

definition serverAuthApi_getCookies ::
  "server \<Rightarrow> (string \<times> string) list \<Rightarrow> Request list \<times> (api_error + json)" where
  "serverAuthApi_getCookies sv cookie = serverApiGet sv cookie ''/api/auth/getCookies'' None"

definition serverServiceApi_logLines ::
  "server \<Rightarrow> (string \<times> string) list \<Rightarrow> string \<Rightarrow> Request list \<times> (api_error + json)" where
  "serverServiceApi_logLines sv cookie ident =
     serverApiGet sv cookie (''/service/'' @ ident @ ''/logLines'') None"

text \<open>A credential is absent when its cookie is missing or empty.\<close>

definition absent :: "(string \<times> string) list \<Rightarrow> string \<Rightarrow> bool" where
  "absent cookie name = (\<not> truthy (map_of cookie name))"

section \<open>Words for stating the properties\<close>

text \<open>
  The classification of an address that the connect routine uses: an address counts as
  secure when it starts with \<open>https\<close>.
\<close>

definition secure :: "string \<Rightarrow> bool" where
  "secure a = startsWith a ''https''"

text \<open>The value of the \<open>add\<close> cookie as the connect routine hands it to the decoder.\<close>

definition cookieAdd :: "(string \<times> string) list \<Rightarrow> string" where
  "cookieAdd cookies = (case map_of cookies ''add'' of None \<Rightarrow> ''undefined'' | Some v \<Rightarrow> v)"

text \<open>The effects that happened between an earlier state and a later one.\<close>

definition newEffects :: "console \<Rightarrow> console \<Rightarrow> effect list" where
  "newEffects st st' = drop (length (effects st)) (effects st')"

text \<open>A call that is part of a connect attempt and has not returned yet.\<close>

fun connecting :: "task \<Rightarrow> bool" where
  "connecting (AwaitLogLines p) = True"
| "connecting (AwaitTicket p) = True"
| "connecting (AwaitCookies p ticket) = True"
| "connecting AwaitExecute = False"
| "connecting Finished = False"

text \<open>A socket that is connecting or open.\<close>

definition live :: "WebSocket \<Rightarrow> bool" where
  "live ws = (readyState ws = CONNECTING \<or> readyState ws = OPEN)"

text \<open>The address the connect routine builds for the socket.\<close>

definition socketUrlOf :: "ServiceConsoleProps \<Rightarrow> string \<Rightarrow> string \<Rightarrow> string" where
  "socketUrlOf p cookieAddress ticket =
     protocolOf cookieAddress @ ''://'' @ stripScheme cookieAddress @ webSocketPath p
       @ ''?ticket='' @ ticket"

section \<open>Concrete inputs\<close>

text \<open>
  A page served over \<open>https\<close>, a node console and a service console, and a server
  runtime; the addresses they are used with contain no percent sign, where the decoding
  built-in returns its argument.
\<close>

definition examplePlatform :: platform where
  "examplePlatform =
     \<lparr>origin = ''https://panel.example'', decodeURIComponent = Some,
      constructible = (\<lambda>u. True)\<rparr>"

definition nodeProps :: ServiceConsoleProps where
  "nodeProps =
     \<lparr>webSocketPath = ''/node/liveConsole'', serviceName = None, disableCommands = False,
      type = Some node\<rparr>"

definition serviceProps :: ServiceConsoleProps where
  "serviceProps =
     \<lparr>webSocketPath = ''/service/Lobby-1/liveLog'', serviceName = Some ''Lobby-1'',
      disableCommands = False, type = Some service\<rparr>"

definition exampleServer :: server where
  "exampleServer =
     \<lparr>fetch = (\<lambda>req. Inr \<lparr>ok = True, status = 200, body_text = ''{}''\<rparr>),
      decodeURI = Some, json_parse = (\<lambda>s. Some (JObject [])),
      json_stringify = (\<lambda>j. ''{}''), searchParams = (\<lambda>ps. [])\<rparr>"

section \<open>Facts about the strings\<close>

lemma startsWith_iff: "startsWith s p \<longleftrightarrow> (\<exists>suf. s = p @ suf)"
  by (induction s p rule: startsWith.induct) auto

lemma includes_iff: "includes_str s t \<longleftrightarrow> (\<exists>pre suf. s = pre @ t @ suf)"
proof (induction s)
  case Nil
  show ?case by simp
next
  case (Cons c cs)
  show ?case
  proof
    assume "includes_str (c # cs) t"
    then consider "startsWith (c # cs) t" | "includes_str cs t" by auto
    then show "\<exists>pre suf. c # cs = pre @ t @ suf"
    proof cases
      case 1
      then obtain suf where "c # cs = t @ suf" by (auto simp: startsWith_iff)
      then have "c # cs = [] @ t @ suf" by simp
      then show ?thesis by blast
    next
      case 2
      then obtain pre suf where "cs = pre @ t @ suf" using Cons.IH by blast
      then have "c # cs = (c # pre) @ t @ suf" by simp
      then show ?thesis by blast
    qed
  next
    assume "\<exists>pre suf. c # cs = pre @ t @ suf"
    then obtain pre suf where eq: "c # cs = pre @ t @ suf" by blast
    show "includes_str (c # cs) t"
    proof (cases pre)
      case Nil
      with eq have "startsWith (c # cs) t" by (auto simp: startsWith_iff)
      then show ?thesis by simp
    next
      case (Cons a pre')
      with eq have "cs = pre' @ t @ suf" by simp
      then have "includes_str cs t" using Cons.IH by blast
      then show ?thesis by simp
    qed
  qed
qed

lemma containsLevel_code: "containsLevel t L = includes_str (toLowerCase t) (toLowerCase L)"
  by (simp add: containsLevel_def includes_iff)

lemmas console_defs =
  mount_def cachedLogLines_def cachedLogLines_resume_def initializeSocket_def
  initializeSocket_ticket_def initializeSocket_cookies_def initializeSocket_catch_def
  settle_def toast_error_def cleanup_def close_def handleSubmit_def handleSubmit_resume_def
  socket_onmessage_def socket_onerror_def clearLogs_def

lemmas console_splits = task.splits sum.splits option.splits target.splits if_splits

section \<open>Facts about one step and about traces\<close>

lemma waiting_in_range: "waiting i st \<noteq> Finished \<Longrightarrow> i < length (tasks st)"
  by (simp add: waiting_def split: if_splits)

text \<open>A call that has returned is never resumed, and it constructs no socket any more.\<close>

lemma step_finished:
  assumes "i < length (tasks st)" "tasks st ! i = Finished"
  shows "i < length (tasks (step pf ev st)) \<and> tasks (step pf ev st) ! i = Finished
       \<and> (\<forall>u. NewWebSocket i u \<notin> set (newEffects st (step pf ev st)))"
  using assms
  by (cases ev)
     (auto simp: console_defs waiting_def Let_def newEffects_def nth_append nth_list_update
        split: console_splits)

lemma step_effects_extend: "\<exists>suf. effects (step pf ev st) = effects st @ suf"
  by (cases ev) (auto simp: console_defs waiting_def Let_def split: console_splits)

lemma run_effects_extend: "\<exists>suf. effects (run pf evs st) = effects st @ suf"
proof (induction evs arbitrary: st)
  case Nil
  show ?case by simp
next
  case (Cons e es)
  obtain a where a: "effects (step pf e st) = effects st @ a"
    using step_effects_extend by blast
  obtain b where "effects (run pf es (step pf e st)) = effects (step pf e st) @ b"
    using Cons.IH by blast
  with a show ?case by simp
qed

lemma newEffects_trans:
  assumes "effects s1 = effects s0 @ a" "effects s2 = effects s1 @ b"
  shows "newEffects s0 s2 = newEffects s0 s1 @ newEffects s1 s2"
  using assms by (simp add: newEffects_def)

lemma run_finished:
  assumes "i < length (tasks st)" "tasks st ! i = Finished"
  shows "i < length (tasks (run pf evs st)) \<and> tasks (run pf evs st) ! i = Finished
       \<and> (\<forall>u. NewWebSocket i u \<notin> set (newEffects st (run pf evs st)))"
  using assms
proof (induction evs arbitrary: st)
  case Nil
  then show ?case by (simp add: newEffects_def)
next
  case (Cons e es)
  let ?s1 = "step pf e st"
  have s1: "i < length (tasks ?s1) \<and> tasks ?s1 ! i = Finished
       \<and> (\<forall>u. NewWebSocket i u \<notin> set (newEffects st ?s1))"
    using step_finished [OF Cons.prems] .
  then have ih: "i < length (tasks (run pf es ?s1)) \<and> tasks (run pf es ?s1) ! i = Finished
       \<and> (\<forall>u. NewWebSocket i u \<notin> set (newEffects ?s1 (run pf es ?s1)))"
    using Cons.IH by blast
  obtain a where a: "effects ?s1 = effects st @ a" using step_effects_extend by blast
  obtain b where b: "effects (run pf es ?s1) = effects ?s1 @ b"
    using run_effects_extend by blast
  have "newEffects st (run pf es ?s1) = newEffects st ?s1 @ newEffects ?s1 (run pf es ?s1)"
    using newEffects_trans [OF a b] .
  with s1 ih show ?case by simp
qed

text \<open>The two ways the comparison of the protocols can go, once the address is decoded.\<close>

lemma guard_mismatch_step:
  assumes "waiting i st = AwaitCookies p ticket"
      and "decodeURIComponent pf (cookieAdd cookies) = Some addr"
      and "secure addr \<noteq> secure (origin pf)"
  shows "step pf (CookiesDone i (Inr cookies)) st =
           settle i Finished (st\<lparr>socketBlocked := True\<rparr>)"
  using assms
  by (auto simp: initializeSocket_cookies_def cookieAdd_def secure_def protocolOf_def Let_def)

lemma guard_pass_step:
  assumes "waiting i st = AwaitCookies p ticket"
      and "decodeURIComponent pf (cookieAdd cookies) = Some addr"
      and "secure addr = secure (origin pf)"
  shows "step pf (CookiesDone i (Inr cookies)) st =
     (if constructible pf (socketUrlOf p addr ticket)
      then settle i Finished
             (st\<lparr>effects := effects st @ [NewWebSocket i (socketUrlOf p addr ticket)],
                 socketRef := Some (length (sockets st)),
                 sockets := sockets st @
                    [\<lparr>url = socketUrlOf p addr ticket, readyState = CONNECTING,
                      onmessage = True, onerror = True\<rparr>]\<rparr>)
      else settle i Finished
             (st\<lparr>effects := effects st @ [NewWebSocket i (socketUrlOf p addr ticket),
                                          Toast ''connectionError''],
                 socketBlocked := True\<rparr>))"
  using assms
  by (auto simp: initializeSocket_cookies_def cookieAdd_def secure_def protocolOf_def Let_def
       socketUrlOf_def settle_def toast_error_def)

lemma socket_constructed_only_after_guard:
  assumes "length (sockets (step pf ev st)) \<noteq> length (sockets st)"
  shows "\<exists>i p ticket cookies addr.
           ev = CookiesDone i (Inr cookies) \<and> waiting i st = AwaitCookies p ticket
         \<and> decodeURIComponent pf (cookieAdd cookies) = Some addr
         \<and> secure addr = secure (origin pf) \<and> constructible pf (socketUrlOf p addr ticket)"
  using assms
  by (cases ev)
     (auto simp: console_defs waiting_def Let_def cookieAdd_def secure_def protocolOf_def
        socketUrlOf_def split: console_splits)

text \<open>
  Once no connect attempt is suspended, a socket is stored and no socket is connecting or
  open, the console stays so: nothing is appended and no socket is constructed.
\<close>

lemma quiet_waiting:
  assumes "\<forall>t \<in> set (tasks s). \<not> connecting t"
  shows "\<not> connecting (waiting i s)"
  using assms by (simp add: waiting_def)

lemma in_set_updE:
  assumes "x \<in> set (xs[i := y])"
  obtains "x = y" | "x \<in> set xs"
  using assms set_update_subset_insert [of xs i y] by auto

lemma cleanup_idem: "cleanup (cleanup st) = cleanup st"
  by (auto simp: cleanup_def close_def split: option.splits)

lemma closed_step:
  assumes "\<forall>t \<in> set (tasks s). \<not> connecting t"
      and "socketRef s \<noteq> None"
      and "\<forall>ws \<in> set (sockets s). \<not> live ws"
      and "hasFetchedLogsRef s"
  shows "(\<forall>t \<in> set (tasks (step pf ev s)). \<not> connecting t)
       \<and> socketRef (step pf ev s) \<noteq> None
       \<and> (\<forall>ws \<in> set (sockets (step pf ev s)). \<not> live ws)
       \<and> hasFetchedLogsRef (step pf ev s)
       \<and> length (sockets (step pf ev s)) = length (sockets s)
       \<and> (history (step pf ev s) = history s \<or> history (step pf ev s) = [])"
proof (cases ev)
  case (Mount p)
  with assms show ?thesis
    by (auto simp: mount_def cachedLogLines_def initializeSocket_def settle_def Let_def
          elim!: in_set_updE)
next
  case Cleanup
  with assms show ?thesis
    by (auto simp: cleanup_def close_def live_def elim!: in_set_updE split: option.splits)
next
  case (LogLinesDone i r)
  have "waiting i s \<noteq> AwaitLogLines p" for p
    using quiet_waiting [OF assms(1), of i] by auto
  with LogLinesDone assms show ?thesis by (auto split: task.splits)
next
  case (TicketDone i r)
  have "waiting i s \<noteq> AwaitTicket p" for p
    using quiet_waiting [OF assms(1), of i] by auto
  with TicketDone assms show ?thesis by (auto split: task.splits)
next
  case (CookiesDone i r)
  have "waiting i s \<noteq> AwaitCookies p t" for p t
    using quiet_waiting [OF assms(1), of i] by auto
  with CookiesDone assms show ?thesis by (auto split: task.splits)
next
  case (ExecuteDone i r)
  with assms show ?thesis
    by (auto simp: handleSubmit_resume_def settle_def toast_error_def
          elim!: in_set_updE split: task.splits sum.splits)
next
  case (SocketOpen k)
  with assms show ?thesis by (auto simp: live_def)
next
  case (SocketMessage k d)
  with assms show ?thesis by (auto simp: live_def)
next
  case (SocketError k)
  with assms show ?thesis by (auto simp: socket_onerror_def toast_error_def)
next
  case (SocketClosed k)
  with assms show ?thesis by (auto simp: live_def elim!: in_set_updE)
next
  case (SetInput p x)
  with assms show ?thesis by auto
next
  case (SetFilter x)
  with assms show ?thesis by auto
next
  case ClearLogs
  with assms show ?thesis by (auto simp: clearLogs_def)
next
  case (Submit p)
  with assms show ?thesis by (auto simp: handleSubmit_def split: option.splits)
qed

lemma closed_run:
  assumes "\<forall>t \<in> set (tasks s). \<not> connecting t"
      and "socketRef s \<noteq> None"
      and "\<forall>ws \<in> set (sockets s). \<not> live ws"
      and "hasFetchedLogsRef s"
  shows "(\<forall>ws \<in> set (sockets (run pf evs s)). \<not> live ws)
       \<and> length (sockets (run pf evs s)) = length (sockets s)
       \<and> (history (run pf evs s) = history s \<or> history (run pf evs s) = [])"
  using assms
proof (induction evs arbitrary: s)
  case Nil
  then show ?case by simp
next
  case (Cons e es)
  note st = closed_step [OF Cons.prems, of pf e]
  from st have ih: "(\<forall>ws \<in> set (sockets (run pf es (step pf e s))). \<not> live ws)
       \<and> length (sockets (run pf es (step pf e s))) = length (sockets (step pf e s))
       \<and> (history (run pf es (step pf e s)) = history (step pf e s)
            \<or> history (run pf es (step pf e s)) = [])"
    using Cons.IH [of "step pf e s"] by blast
  from st ih show ?case by auto
qed

section \<open>The protocol guard\<close>

text \<open>
  C1. When the address of the endpoint and the origin of the page are classified
  differently, the connect attempt ends there: no socket is constructed, none is stored,
  nothing is sent, the blocked flag is set, and whatever happens later, this attempt
  stays finished and constructs no socket. In every step of the console, a socket is
  constructed only in the step in which a connect attempt has compared the two
  classifications and found them equal; and a message is appended only for a socket that
  exists and is open.
\<close>

theorem guard_before_socket:
  assumes "waiting i st = AwaitCookies p ticket"
      and "decodeURIComponent pf (cookieAdd cookies) = Some addr"
      and "secure addr \<noteq> secure (origin pf)"
  shows "(let st' = step pf (CookiesDone i (Inr cookies)) st
          in sockets st' = sockets st \<and> socketRef st' = socketRef st \<and> newEffects st st' = []
           \<and> socketBlocked st'
           \<and> (\<forall>evs. waiting i (run pf evs st') = Finished
                  \<and> (\<forall>u. NewWebSocket i u \<notin> set (newEffects st (run pf evs st')))))
       \<and> (\<forall>ev s. length (sockets (step pf ev s)) \<noteq> length (sockets s) \<longrightarrow>
             (\<exists>j q t c a. ev = CookiesDone j (Inr c) \<and> waiting j s = AwaitCookies q t
                \<and> decodeURIComponent pf (cookieAdd c) = Some a \<and> secure a = secure (origin pf)))
       \<and> (\<forall>k d s. history (step pf (SocketMessage k d) s) \<noteq> history s \<longrightarrow>
             k < length (sockets s) \<and> readyState (sockets s ! k) = OPEN)"
proof -
  define st' where "st' = step pf (CookiesDone i (Inr cookies)) st"
  have eq: "st' = settle i Finished (st\<lparr>socketBlocked := True\<rparr>)"
    unfolding st'_def using guard_mismatch_step [OF assms] .
  have i: "i < length (tasks st)"
    using assms(1) waiting_in_range [of i st] by simp
  have fin: "i < length (tasks st')" "tasks st' ! i = Finished"
    using i by (simp_all add: eq settle_def)
  have eff: "effects st' = effects st" by (simp add: eq settle_def)
  have a: "sockets st' = sockets st \<and> socketRef st' = socketRef st
           \<and> newEffects st st' = [] \<and> socketBlocked st'"
    by (simp add: eq settle_def newEffects_def)
  have b: "waiting i (run pf evs st') = Finished
         \<and> (\<forall>u. NewWebSocket i u \<notin> set (newEffects st (run pf evs st')))" for evs
    using run_finished [OF fin, of pf evs] eff by (simp add: waiting_def newEffects_def)
  have d: "\<exists>j q t c a. ev = CookiesDone j (Inr c) \<and> waiting j s = AwaitCookies q t
                \<and> decodeURIComponent pf (cookieAdd c) = Some a \<and> secure a = secure (origin pf)"
    if "length (sockets (step pf ev s)) \<noteq> length (sockets s)" for ev s
    using socket_constructed_only_after_guard [OF that] by blast
  have e: "k < length (sockets s) \<and> readyState (sockets s ! k) = OPEN"
    if "history (step pf (SocketMessage k d) s) \<noteq> history s" for k d s
    using that by (auto split: if_splits)
  show ?thesis
    unfolding Let_def st'_def [symmetric] using a b d e by blast
qed

theorem guard_before_socket_witness:
  "waiting 0 (run examplePlatform [Mount nodeProps, TicketDone 0 (Inr ''t0'')] initial)
     = AwaitCookies nodeProps ''t0''
   \<and> decodeURIComponent examplePlatform (cookieAdd [(''add'', ''http://node.example:2812'')])
       = Some ''http://node.example:2812''
   \<and> secure ''http://node.example:2812'' \<noteq> secure (origin examplePlatform)
   \<and> sockets (step examplePlatform (CookiesDone 0 (Inr [(''add'', ''http://node.example:2812'')]))
        (run examplePlatform [Mount nodeProps, TicketDone 0 (Inr ''t0'')] initial)) = []
   \<and> waiting 0 (run examplePlatform [SocketOpen 0, SocketMessage 0 ''x'', Cleanup]
        (step examplePlatform (CookiesDone 0 (Inr [(''add'', ''http://node.example:2812'')]))
          (run examplePlatform [Mount nodeProps, TicketDone 0 (Inr ''t0'')] initial))) = Finished"
proof -
  define st where "st = run examplePlatform [Mount nodeProps, TicketDone 0 (Inr ''t0'')] initial"
  define c where "c = [(''add'', ''http://node.example:2812'')]"
  have h1: "waiting 0 st = AwaitCookies nodeProps ''t0''" unfolding st_def by code_simp
  have h2: "decodeURIComponent examplePlatform (cookieAdd c) = Some ''http://node.example:2812''"
    unfolding c_def by code_simp
  have h3: "secure ''http://node.example:2812'' \<noteq> secure (origin examplePlatform)"
    by code_simp
  have e: "sockets st = []" unfolding st_def by code_simp
  note t = guard_before_socket [OF h1 h2 h3, unfolded Let_def]
  from t have a: "sockets (step examplePlatform (CookiesDone 0 (Inr c)) st) = sockets st"
    by blast
  from t have b: "waiting 0 (run examplePlatform [SocketOpen 0, SocketMessage 0 ''x'', Cleanup]
        (step examplePlatform (CookiesDone 0 (Inr c)) st)) = Finished"
    by blast
  show ?thesis
    using h1 h2 h3 a b e unfolding st_def c_def by (simp only: simp_thms)
qed

text \<open>
  C4. The decision of the guard is the equality of the two classifications, for every
  address and every origin; an address that declares \<open>https\<close> is classified secure, one
  that declares \<open>http\<close> is not. In the connect attempt, once the address is decoded: the
  attempt is blocked (the flag set, nothing sent, no socket) exactly when the
  classifications differ, and the socket constructor is called exactly when they agree.
\<close>

theorem guard_is_classification_equality:
  assumes "waiting i st = AwaitCookies p ticket"
      and "decodeURIComponent pf (cookieAdd cookies) = Some addr"
  shows "(\<forall>a b. (protocolOf a \<noteq> protocolOf b) = (secure a \<noteq> secure b))
       \<and> (\<forall>h. secure (''https://'' @ h) \<and> \<not> secure (''http://'' @ h))
       \<and> (let st' = step pf (CookiesDone i (Inr cookies)) st
          in ((newEffects st st' = [] \<and> sockets st' = sockets st \<and> socketBlocked st')
                = (secure addr \<noteq> secure (origin pf)))
           \<and> ((\<exists>u. NewWebSocket i u \<in> set (newEffects st st'))
                = (secure addr = secure (origin pf))))"
proof -
  have g: "(protocolOf a \<noteq> protocolOf b) = (secure a \<noteq> secure b)" for a b
    by (simp add: protocolOf_def secure_def)
  define st' where "st' = step pf (CookiesDone i (Inr cookies)) st"
  have s: "((newEffects st st' = [] \<and> sockets st' = sockets st \<and> socketBlocked st')
                = (secure addr \<noteq> secure (origin pf)))
           \<and> ((\<exists>u. NewWebSocket i u \<in> set (newEffects st st'))
                = (secure addr = secure (origin pf)))"
  proof (cases "secure addr = secure (origin pf)")
    case True
    show ?thesis
      unfolding st'_def guard_pass_step [OF assms True]
      using True by (simp add: settle_def newEffects_def)
  next
    case False
    show ?thesis
      unfolding st'_def guard_mismatch_step [OF assms False]
      using False by (simp add: settle_def newEffects_def)
  qed
  have c: "secure (''https://'' @ h) \<and> \<not> secure (''http://'' @ h)" for h
    by (simp add: secure_def)
  show ?thesis unfolding Let_def st'_def [symmetric] using g c s by blast
qed

theorem guard_is_classification_equality_witness:
  "waiting 0 (run examplePlatform [Mount nodeProps, TicketDone 0 (Inr ''t0'')] initial)
     = AwaitCookies nodeProps ''t0''
   \<and> decodeURIComponent examplePlatform (cookieAdd [(''add'', ''https://node.example:2812'')])
       = Some ''https://node.example:2812''
   \<and> secure ''https://node.example:2812'' = secure (origin examplePlatform)
   \<and> (\<exists>u. NewWebSocket 0 u \<in> set (newEffects
          (run examplePlatform [Mount nodeProps, TicketDone 0 (Inr ''t0'')] initial)
          (step examplePlatform (CookiesDone 0 (Inr [(''add'', ''https://node.example:2812'')]))
            (run examplePlatform [Mount nodeProps, TicketDone 0 (Inr ''t0'')] initial))))
   \<and> protocolOf ''http://node.example:2812'' \<noteq> protocolOf ''https://panel.example''"
proof -
  define st where "st = run examplePlatform [Mount nodeProps, TicketDone 0 (Inr ''t0'')] initial"
  define c where "c = [(''add'', ''https://node.example:2812'')]"
  have h1: "waiting 0 st = AwaitCookies nodeProps ''t0''" unfolding st_def by code_simp
  have h2: "decodeURIComponent examplePlatform (cookieAdd c) = Some ''https://node.example:2812''"
    unfolding c_def by code_simp
  have h3: "secure ''https://node.example:2812'' = secure (origin examplePlatform)"
    by code_simp
  have h4: "secure ''http://node.example:2812'' \<noteq> secure ''https://panel.example''"
    by code_simp
  note t = guard_is_classification_equality [OF h1 h2, unfolded Let_def]
  from t h3 have a: "\<exists>u. NewWebSocket 0 u \<in> set (newEffects st
          (step examplePlatform (CookiesDone 0 (Inr c)) st))"
    by blast
  from t h4 have b: "protocolOf ''http://node.example:2812'' \<noteq> protocolOf ''https://panel.example''"
    by blast
  show ?thesis
    using h1 h2 h3 a b unfolding st_def c_def by (simp only: simp_thms)
qed

section \<open>Failures of a connect attempt\<close>

text \<open>
  C5, as the code has it. A failed ticket request and a failed construction of the socket
  each set the blocked flag, the same flag that a mismatch of the protocols sets, so the
  protocol-mismatch alert is shown for them too; in addition they raise the
  connection-error notice, which a mismatch does not. No socket is stored in any of the
  three cases. An error event of a constructed socket raises the notice alone.
\<close>

theorem failures_set_blocked_flag:
  "(waiting i st = AwaitTicket p \<longrightarrow>
      (let st' = step pf (TicketDone i (Inl e)) st
       in socketBlocked st' \<and> alertShown st' = Some ''protocolMismatch''
        \<and> newEffects st st' = [Toast ''connectionError'']
        \<and> sockets st' = sockets st \<and> socketRef st' = socketRef st))
   \<and> (waiting i st = AwaitCookies p ticket
        \<and> decodeURIComponent pf (cookieAdd cookies) = Some addr \<longrightarrow>
      (let st' = step pf (CookiesDone i (Inr cookies)) st; u = socketUrlOf p addr ticket
       in (secure addr = secure (origin pf) \<and> \<not> constructible pf u \<longrightarrow>
             socketBlocked st' \<and> alertShown st' = Some ''protocolMismatch''
           \<and> newEffects st st' = [NewWebSocket i u, Toast ''connectionError'']
           \<and> sockets st' = sockets st \<and> socketRef st' = socketRef st)
        \<and> (secure addr \<noteq> secure (origin pf) \<longrightarrow>
             socketBlocked st' \<and> alertShown st' = Some ''protocolMismatch''
           \<and> newEffects st st' = []
           \<and> sockets st' = sockets st \<and> socketRef st' = socketRef st)))
   \<and> (k < length (sockets st) \<and> onerror (sockets st ! k) \<longrightarrow>
      (let st' = step pf (SocketError k) st
       in socketBlocked st' = socketBlocked st \<and> newEffects st st' = [Toast ''connectionError'']
        \<and> sockets st' = sockets st \<and> socketRef st' = socketRef st))"
proof (intro conjI impI)
  assume "waiting i st = AwaitTicket p"
  then show "let st' = step pf (TicketDone i (Inl e)) st
       in socketBlocked st' \<and> alertShown st' = Some ''protocolMismatch''
        \<and> newEffects st st' = [Toast ''connectionError'']
        \<and> sockets st' = sockets st \<and> socketRef st' = socketRef st"
    by (simp add: initializeSocket_ticket_def initializeSocket_catch_def settle_def
          toast_error_def alertShown_def newEffects_def)
next
  assume h: "waiting i st = AwaitCookies p ticket
        \<and> decodeURIComponent pf (cookieAdd cookies) = Some addr"
  show "let st' = step pf (CookiesDone i (Inr cookies)) st; u = socketUrlOf p addr ticket
       in (secure addr = secure (origin pf) \<and> \<not> constructible pf u \<longrightarrow>
             socketBlocked st' \<and> alertShown st' = Some ''protocolMismatch''
           \<and> newEffects st st' = [NewWebSocket i u, Toast ''connectionError'']
           \<and> sockets st' = sockets st \<and> socketRef st' = socketRef st)
        \<and> (secure addr \<noteq> secure (origin pf) \<longrightarrow>
             socketBlocked st' \<and> alertShown st' = Some ''protocolMismatch''
           \<and> newEffects st st' = []
           \<and> sockets st' = sockets st \<and> socketRef st' = socketRef st)"
  proof (cases "secure addr = secure (origin pf)")
    case True
    show ?thesis
      unfolding Let_def guard_pass_step [OF conjunct1 [OF h] conjunct2 [OF h] True]
      using True by (simp add: settle_def alertShown_def newEffects_def)
  next
    case False
    show ?thesis
      unfolding Let_def guard_mismatch_step [OF conjunct1 [OF h] conjunct2 [OF h] False]
      using False by (simp add: settle_def alertShown_def newEffects_def)
  qed
next
  assume "k < length (sockets st) \<and> onerror (sockets st ! k)"
  then show "let st' = step pf (SocketError k) st
       in socketBlocked st' = socketBlocked st \<and> newEffects st st' = [Toast ''connectionError'']
        \<and> sockets st' = sockets st \<and> socketRef st' = socketRef st"
    by (simp add: socket_onerror_def toast_error_def newEffects_def)
qed

theorem failures_set_blocked_flag_witness:
  "waiting 0 (run examplePlatform [Mount nodeProps] initial) = AwaitTicket nodeProps
   \<and> alertShown (step examplePlatform (TicketDone 0 (Inl (Error ''rejected'')))
        (run examplePlatform [Mount nodeProps] initial)) = Some ''protocolMismatch''
   \<and> newEffects (run examplePlatform [Mount nodeProps] initial)
        (step examplePlatform (TicketDone 0 (Inl (Error ''rejected'')))
          (run examplePlatform [Mount nodeProps] initial)) = [Toast ''connectionError'']
   \<and> waiting 0 (run examplePlatform [Mount nodeProps, TicketDone 0 (Inr ''t0'')] initial)
       = AwaitCookies nodeProps ''t0''
   \<and> \<not> constructible (examplePlatform\<lparr>constructible := (\<lambda>u. False)\<rparr>)
         (socketUrlOf nodeProps ''https://node.example:2812'' ''t0'')
   \<and> alertShown (step (examplePlatform\<lparr>constructible := (\<lambda>u. False)\<rparr>)
        (CookiesDone 0 (Inr [(''add'', ''https://node.example:2812'')]))
        (run examplePlatform [Mount nodeProps, TicketDone 0 (Inr ''t0'')] initial))
       = Some ''protocolMismatch''
   \<and> alertShown (step examplePlatform
        (CookiesDone 0 (Inr [(''add'', ''http://node.example:2812'')]))
        (run examplePlatform [Mount nodeProps, TicketDone 0 (Inr ''t0'')] initial))
       = Some ''protocolMismatch''
   \<and> newEffects
        (run examplePlatform
           [Mount nodeProps, TicketDone 0 (Inr ''t0''),
            CookiesDone 0 (Inr [(''add'', ''https://node.example:2812'')])] initial)
        (step examplePlatform (SocketError 0)
          (run examplePlatform
             [Mount nodeProps, TicketDone 0 (Inr ''t0''),
              CookiesDone 0 (Inr [(''add'', ''https://node.example:2812'')])] initial))
       = [Toast ''connectionError'']"
proof -
  define pf2 where "pf2 = examplePlatform\<lparr>constructible := (\<lambda>u. False)\<rparr>"
  define s1 where "s1 = run examplePlatform [Mount nodeProps] initial"
  define s2 where "s2 = run examplePlatform [Mount nodeProps, TicketDone 0 (Inr ''t0'')] initial"
  define s3 where "s3 = run examplePlatform
           [Mount nodeProps, TicketDone 0 (Inr ''t0''),
            CookiesDone 0 (Inr [(''add'', ''https://node.example:2812'')])] initial"
  define cs where "cs = [(''add'', ''https://node.example:2812'')]"
  define ch where "ch = [(''add'', ''http://node.example:2812'')]"
  have h1: "waiting 0 s1 = AwaitTicket nodeProps" unfolding s1_def by code_simp
  have h2: "waiting 0 s2 = AwaitCookies nodeProps ''t0''" unfolding s2_def by code_simp
  have d2: "decodeURIComponent pf2 (cookieAdd cs) = Some ''https://node.example:2812''"
    unfolding pf2_def cs_def by code_simp
  have e2: "secure ''https://node.example:2812'' = secure (origin pf2)"
    unfolding pf2_def by code_simp
  have n2: "\<not> constructible pf2 (socketUrlOf nodeProps ''https://node.example:2812'' ''t0'')"
    unfolding pf2_def by code_simp
  have d3: "decodeURIComponent examplePlatform (cookieAdd ch) = Some ''http://node.example:2812''"
    unfolding ch_def by code_simp
  have e3: "secure ''http://node.example:2812'' \<noteq> secure (origin examplePlatform)"
    by code_simp
  have h4: "0 < length (sockets s3) \<and> onerror (sockets s3 ! 0)" unfolding s3_def by code_simp
  from failures_set_blocked_flag [of 0 s1 nodeProps examplePlatform "Error ''rejected''",
      unfolded Let_def] h1
  have a: "alertShown (step examplePlatform (TicketDone 0 (Inl (Error ''rejected''))) s1)
             = Some ''protocolMismatch''
         \<and> newEffects s1 (step examplePlatform (TicketDone 0 (Inl (Error ''rejected''))) s1)
             = [Toast ''connectionError'']"
    by blast
  from failures_set_blocked_flag [of 0 s2 nodeProps pf2 _ "''t0''" cs
      "''https://node.example:2812''", unfolded Let_def] h2 d2 e2 n2
  have b: "alertShown (step pf2 (CookiesDone 0 (Inr cs)) s2) = Some ''protocolMismatch''"
    by blast
  from failures_set_blocked_flag [of 0 s2 nodeProps examplePlatform _ "''t0''" ch
      "''http://node.example:2812''", unfolded Let_def] h2 d3 e3
  have c: "alertShown (step examplePlatform (CookiesDone 0 (Inr ch)) s2)
             = Some ''protocolMismatch''"
    by blast
  from failures_set_blocked_flag [of _ s3 _ examplePlatform _ _ _ _ 0, unfolded Let_def] h4
  have d: "newEffects s3 (step examplePlatform (SocketError 0) s3) = [Toast ''connectionError'']"
    by blast
  show ?thesis
    using h1 h2 n2 a b c d unfolding pf2_def s1_def s2_def s3_def cs_def ch_def
    by (simp only: simp_thms)
qed

text \<open>
  The claim C5 as it is written fails: after a rejected ticket request, and after a
  failed construction, the console shows the protocol-mismatch alert, as it does after a
  mismatch.
\<close>

theorem errored_shows_mismatch_alert_counterexample:
  "(let sE = run examplePlatform
               [Mount nodeProps, TicketDone 0 (Inl (Error ''rejected''))] initial;
        sC = run (examplePlatform\<lparr>constructible := (\<lambda>u. False)\<rparr>)
               [Mount nodeProps, TicketDone 0 (Inr ''t0''),
                CookiesDone 0 (Inr [(''add'', ''https://node.example:2812'')])] initial;
        sG = run examplePlatform
               [Mount nodeProps, TicketDone 0 (Inr ''t0''),
                CookiesDone 0 (Inr [(''add'', ''http://node.example:2812'')])] initial
    in alertShown sG = Some ''protocolMismatch''
     \<and> alertShown sE = Some ''protocolMismatch''
     \<and> alertShown sC = Some ''protocolMismatch''
     \<and> socketBlocked sE = socketBlocked sG \<and> socketBlocked sC = socketBlocked sG)"
  by code_simp

text \<open>
  C3, at an input where the code departs from it. The effect runs, is cleaned up and runs
  again before the first ticket has arrived (node console, so no cached lines are
  fetched). The socket ref is still empty when the second call of \<open>initializeSocket\<close>
  tests it, so the second call is not skipped: two tickets are requested and two sockets
  are constructed, the first of them no longer referred to.
\<close>

theorem overlapping_connects_both_proceed:
  "(let s = run examplePlatform
              [Mount nodeProps, Cleanup, Mount nodeProps,
               TicketDone 0 (Inr ''t0''), TicketDone 1 (Inr ''t1''),
               CookiesDone 0 (Inr [(''add'', ''https://node.example:2812'')]),
               CookiesDone 1 (Inr [(''add'', ''https://node.example:2812'')])] initial
    in effects s =
         [CreateTicket 0 (Some node), CreateTicket 1 (Some node), GetCookies 0, GetCookies 1,
          NewWebSocket 0 ''wss://node.example:2812/node/liveConsole?ticket=t0'',
          NewWebSocket 1 ''wss://node.example:2812/node/liveConsole?ticket=t1'']
       \<and> map url (sockets s) =
         [''wss://node.example:2812/node/liveConsole?ticket=t0'',
          ''wss://node.example:2812/node/liveConsole?ticket=t1'']
       \<and> map readyState (sockets s) = [CONNECTING, CONNECTING]
       \<and> socketRef s = Some 1)"
  by code_simp

section \<open>Cleanup\<close>

text \<open>
  C2, at inputs where the code departs from it. The cleanup runs while the connect
  attempt still waits for its ticket: the socket ref is empty, so the cleanup closes
  nothing. The attempt then goes on and constructs the socket, which opens and is never
  closed, and the handler appends a line that arrives. The same happens when the effect
  has been run again after the cleanup: the line comes in through the socket of the
  first attempt, while the second attempt still waits for its ticket. When the cleanup
  runs after the attempt has stored its socket, it does close it, and the late line is
  not appended.
\<close>

theorem dispose_before_connect_leaves_socket_open:
  "(let s1 = run examplePlatform [Mount nodeProps, Cleanup] initial;
        s2 = run examplePlatform
               [TicketDone 0 (Inr ''t0''),
                CookiesDone 0 (Inr [(''add'', ''https://node.example:2812'')]),
                SocketOpen 0, SocketMessage 0 ''late''] s1
    in history s1 = [] \<and> sockets s1 = []
     \<and> history s2 = [\<lparr>output_text = ''late''\<rparr>]
     \<and> map readyState (sockets s2) = [OPEN] \<and> socketRef s2 = Some 0)
   \<and> (let s3 = run examplePlatform
               [Mount nodeProps, Cleanup, Mount nodeProps, TicketDone 0 (Inr ''t0''),
                CookiesDone 0 (Inr [(''add'', ''https://node.example:2812'')]),
                SocketOpen 0, SocketMessage 0 ''late''] initial
      in tasks s3 = [Finished, AwaitTicket nodeProps]
       \<and> history s3 = [\<lparr>output_text = ''late''\<rparr>]
       \<and> map readyState (sockets s3) = [OPEN])
   \<and> (let s4 = run examplePlatform
               [Mount nodeProps, TicketDone 0 (Inr ''t0''),
                CookiesDone 0 (Inr [(''add'', ''https://node.example:2812'')]),
                SocketOpen 0, Cleanup, SocketMessage 0 ''late''] initial
      in history s4 = [] \<and> map readyState (sockets s4) = [CLOSING])"
  by code_simp

text \<open>
  What the cleanup achieves on the path that works. When it runs while no connect
  attempt is suspended, the socket ref holds a socket and no other socket is connecting
  or open, then that socket is closed, and from then on, whatever events follow (late
  messages of the socket, further cleanups, further runs of the effect), no socket is
  connecting or open, none is constructed, and nothing is appended to the buffer: the
  buffer keeps its content until it is cleared. Running the cleanup twice is the same as
  running it once.
\<close>

lemma dispose_closes_for_good:
  assumes "\<forall>t \<in> set (tasks st). \<not> connecting t"
      and "socketRef st = Some k" and "k < length (sockets st)"
      and "\<forall>j < length (sockets st). j \<noteq> k \<longrightarrow> \<not> live (sockets st ! j)"
      and "hasFetchedLogsRef st"
  shows "cleanup (cleanup st) = cleanup st
       \<and> \<not> live (sockets (cleanup st) ! k)
       \<and> (\<forall>evs. let s = run pf evs (cleanup st)
                in (\<forall>ws \<in> set (sockets s). \<not> live ws)
                 \<and> length (sockets s) = length (sockets st)
                 \<and> (history s = history st \<or> history s = []))"
proof -
  have sk: "sockets (cleanup st) = (sockets st)[k := close (sockets st ! k)]"
    using assms(2,3) by (simp add: cleanup_def)
  have nl: "\<not> live (close ws)" for ws by (simp add: close_def live_def)
  have all: "\<forall>ws \<in> set (sockets (cleanup st)). \<not> live ws"
    unfolding sk all_set_conv_all_nth using assms(3,4) nl
    by (auto simp: nth_list_update)
  have t: "\<forall>t \<in> set (tasks (cleanup st)). \<not> connecting t"
    using assms(1) by (simp add: cleanup_def split: option.splits)
  have r: "socketRef (cleanup st) \<noteq> None"
    using assms(2) by (simp add: cleanup_def split: option.splits)
  have f: "hasFetchedLogsRef (cleanup st)"
    using assms(5) by (simp add: cleanup_def split: option.splits)
  have hl: "history (cleanup st) = history st" "length (sockets (cleanup st)) = length (sockets st)"
    by (simp_all add: cleanup_def split: option.splits)
  have k: "\<not> live (sockets (cleanup st) ! k)"
    unfolding sk using assms(3) nl by simp
  have "(\<forall>ws \<in> set (sockets (run pf evs (cleanup st))). \<not> live ws)
       \<and> length (sockets (run pf evs (cleanup st))) = length (sockets st)
       \<and> (history (run pf evs (cleanup st)) = history st
            \<or> history (run pf evs (cleanup st)) = [])" for evs
    using closed_run [OF t r all f, of pf evs] hl by simp
  then show ?thesis unfolding Let_def using cleanup_idem k by blast
qed

section \<open>Command submission\<close>

text \<open>
  C10. \<open>handleSubmit\<close> itself leaves the input field as it is. When the input is empty or
  only white space, or no service name is set, it does nothing at all: no remote call is
  made. Otherwise it sends the command. When the send fails, the field is left as it is
  and a notice is raised; only when the send succeeds is the field cleared. In every
  step of the console, the field changes only by typing or by a send that succeeded.
\<close>

theorem submit_clears_input_only_on_success:
  "input (handleSubmit p st) = input st
   \<and> (trim (input st) = [] \<or> \<not> truthy (serviceName p) \<longrightarrow> handleSubmit p st = st)
   \<and> (\<forall>name. trim (input st) \<noteq> [] \<and> serviceName p = Some name \<and> name \<noteq> [] \<longrightarrow>
         newEffects st (handleSubmit p st) = [Execute (length (tasks st)) name (input st)]
       \<and> waiting (length (tasks st)) (handleSubmit p st) = AwaitExecute)
   \<and> (waiting i st = AwaitExecute \<longrightarrow>
         input (step pf (ExecuteDone i (Inl e)) st) = input st
       \<and> newEffects st (step pf (ExecuteDone i (Inl e)) st) = [Toast ''commandError'']
       \<and> input (step pf (ExecuteDone i (Inr u)) st) = [])
   \<and> (\<forall>ev. input (step pf ev st) \<noteq> input st \<longrightarrow>
         (\<exists>q s. ev = SetInput q s)
       \<or> (\<exists>j u. ev = ExecuteDone j (Inr u) \<and> waiting j st = AwaitExecute))"
proof -
  have a: "input (handleSubmit p st) = input st"
    by (simp add: handleSubmit_def split: option.splits)
  have b: "trim (input st) = [] \<or> \<not> truthy (serviceName p) \<longrightarrow> handleSubmit p st = st"
    by (auto simp: handleSubmit_def truthy_def split: option.splits)
  have c: "newEffects st (handleSubmit p st) = [Execute (length (tasks st)) name (input st)]
       \<and> waiting (length (tasks st)) (handleSubmit p st) = AwaitExecute"
    if "trim (input st) \<noteq> [] \<and> serviceName p = Some name \<and> name \<noteq> []" for name
    using that by (simp add: handleSubmit_def newEffects_def waiting_def)
  have d: "waiting i st = AwaitExecute \<longrightarrow>
         input (step pf (ExecuteDone i (Inl e)) st) = input st
       \<and> newEffects st (step pf (ExecuteDone i (Inl e)) st) = [Toast ''commandError'']
       \<and> input (step pf (ExecuteDone i (Inr u)) st) = []"
    by (simp add: handleSubmit_resume_def settle_def toast_error_def newEffects_def)
  have e: "(\<exists>q s. ev = SetInput q s)
       \<or> (\<exists>j u. ev = ExecuteDone j (Inr u) \<and> waiting j st = AwaitExecute)"
    if "input (step pf ev st) \<noteq> input st" for ev
    using that
    by (cases ev) (auto simp: console_defs Let_def split: console_splits)
  show ?thesis using a b c d e by blast
qed

theorem submit_clears_input_only_on_success_witness:
  "trim [CHR 0x20, CHR 0xA0, CHR 0x09] = []
   \<and> handleSubmit serviceProps (initial\<lparr>input := [CHR 0x20, CHR 0xA0, CHR 0x09]\<rparr>) = initial\<lparr>input := [CHR 0x20, CHR 0xA0, CHR 0x09]\<rparr>
   \<and> handleSubmit nodeProps (initial\<lparr>input := ''stop''\<rparr>) = initial\<lparr>input := ''stop''\<rparr>
   \<and> newEffects (initial\<lparr>input := ''stop''\<rparr>) (handleSubmit serviceProps (initial\<lparr>input := ''stop''\<rparr>))
       = [Execute 0 ''Lobby-1'' ''stop'']
   \<and> waiting 0 (handleSubmit serviceProps (initial\<lparr>input := ''stop''\<rparr>)) = AwaitExecute
   \<and> input (step examplePlatform (ExecuteDone 0 (Inl (Error ''500'')))
        (handleSubmit serviceProps (initial\<lparr>input := ''stop''\<rparr>))) = ''stop''
   \<and> input (step examplePlatform (ExecuteDone 0 (Inr ()))
        (handleSubmit serviceProps (initial\<lparr>input := ''stop''\<rparr>))) = []"
proof -
  define s0 where "s0 = initial\<lparr>input := ''stop''\<rparr>"
  define sw where "sw = initial\<lparr>input := [CHR 0x20, CHR 0xA0, CHR 0x09]\<rparr>"
  define s1 where "s1 = handleSubmit serviceProps s0"
  have w: "trim (input sw) = []" unfolding sw_def by code_simp
  have w': "trim [CHR 0x20, CHR 0xA0, CHR 0x09] = []" by code_simp
  have n: "\<not> truthy (serviceName nodeProps)" by code_simp
  have g: "trim (input s0) \<noteq> [] \<and> serviceName serviceProps = Some ''Lobby-1'' \<and> ''Lobby-1'' \<noteq> []"
    unfolding s0_def by code_simp
  have l: "length (tasks s0) = 0" unfolding s0_def by code_simp
  have i0: "input s0 = ''stop''" unfolding s0_def by code_simp
  from submit_clears_input_only_on_success [of serviceProps sw] w
  have a: "handleSubmit serviceProps sw = sw" by blast
  from submit_clears_input_only_on_success [of nodeProps s0] n
  have b: "handleSubmit nodeProps s0 = s0" by blast
  from submit_clears_input_only_on_success [of serviceProps s0] g
  have c: "newEffects s0 s1 = [Execute (length (tasks s0)) ''Lobby-1'' (input s0)]
         \<and> waiting (length (tasks s0)) s1 = AwaitExecute \<and> input s1 = input s0"
    unfolding s1_def by blast
  then have c1: "waiting 0 s1 = AwaitExecute" using l by simp
  from submit_clears_input_only_on_success [of _ s1 0 examplePlatform "Error ''500''" "()"] c1
  have d: "input (step examplePlatform (ExecuteDone 0 (Inl (Error ''500''))) s1) = input s1
         \<and> input (step examplePlatform (ExecuteDone 0 (Inr ())) s1) = []"
    by blast
  show ?thesis
    using w' a b c d unfolding l i0 unfolding s1_def s0_def sw_def by (simp only: simp_thms)
qed

section \<open>Seeding and connecting\<close>

text \<open>
  C8, at an input where the code departs from it. The effect of a service console runs,
  is cleaned up and runs again while the fetch of the cached lines is pending. The
  second run finds the fetch marked as started, does not wait for it and requests the
  ticket at once: the connection is initiated before the seeding has completed. The
  socket then opens and delivers a line, and the fetched lines, arriving later, replace
  the buffer, so the line is lost. In a single run of the effect the order is kept: the
  ticket is requested after the buffer has been seeded.
\<close>

theorem rerun_connects_before_seeding:
  "(let s = run examplePlatform [Mount serviceProps, Cleanup, Mount serviceProps] initial;
        s' = run examplePlatform
               [TicketDone 1 (Inr ''t1''),
                CookiesDone 1 (Inr [(''add'', ''https://node.example:2812'')]),
                SocketOpen 0, SocketMessage 0 ''live'', LogLinesDone 0 (Inr [''old''])] s
    in effects s = [LogLines 0 ''Lobby-1'', CreateTicket 1 (Some service)]
     \<and> waiting 0 s = AwaitLogLines serviceProps
     \<and> history s = []
     \<and> map readyState (sockets s') = [OPEN]
     \<and> history s' = [\<lparr>output_text = ''old''\<rparr>])
   \<and> (let s1 = run examplePlatform
               [Mount serviceProps, LogLinesDone 0 (Inr [''old''])] initial
      in effects s1 = [LogLines 0 ''Lobby-1'', CreateTicket 0 (Some service)]
       \<and> history s1 = [\<lparr>output_text = ''old''\<rparr>])"
  by code_simp

text \<open>
  What the run that starts the fetch achieves (a service console whose fetch has not
  been started before), when no other event comes in between. Nothing but the fetch is
  requested while the fetch is pending; when it settles, the buffer is seeded with the
  fetched lines, or left as it was and a notice raised when it failed, and only then is
  the ticket requested. After a failed fetch the attempt goes on: with a ticket, an
  address classified as the origin is and an address the constructor accepts, the socket
  is constructed and stored, it opens, the buffer is still as it was, and a message is
  appended.
\<close>

lemma seed_then_connect:
  assumes "\<not> hasFetchedLogsRef st"
      and "type p = Some service" and "serviceName p = Some name" and "name \<noteq> []"
  shows "(let i = length (tasks st); st1 = step pf (Mount p) st
          in newEffects st st1 = [LogLines i name] \<and> waiting i st1 = AwaitLogLines p
           \<and> history st1 = history st
           \<and> (\<forall>lines. let st2 = step pf (LogLinesDone i (Inr lines)) st1
                in history st2 = map (\<lambda>line. \<lparr>output_text = line\<rparr>) lines
                 \<and> (socketRef st = None \<longrightarrow>
                      newEffects st1 st2 = [CreateTicket i (Some service)]
                    \<and> waiting i st2 = AwaitTicket p))
           \<and> (\<forall>e. let st2 = step pf (LogLinesDone i (Inl e)) st1
                in history st2 = history st
                 \<and> (socketRef st = None \<longrightarrow>
                      newEffects st1 st2 = [Toast ''fetchError'', CreateTicket i (Some service)]
                    \<and> waiting i st2 = AwaitTicket p))
           \<and> (\<forall>e ticket cookies addr d.
                 socketRef st = None \<and> decodeURIComponent pf (cookieAdd cookies) = Some addr
                 \<and> secure addr = secure (origin pf)
                 \<and> constructible pf (socketUrlOf p addr ticket) \<longrightarrow>
                 (let k = length (sockets st);
                      s = run pf [Mount p, LogLinesDone i (Inl e), TicketDone i (Inr ticket),
                                  CookiesDone i (Inr cookies), SocketOpen k] st
                  in history s = history st \<and> socketRef s = Some k
                   \<and> readyState (sockets s ! k) = OPEN
                   \<and> url (sockets s ! k) = socketUrlOf p addr ticket
                   \<and> history (step pf (SocketMessage k d) s)
                       = history st @ [\<lparr>output_text = d\<rparr>])))"
proof -
  define i where "i = length (tasks st)"
  define st1 where "st1 = step pf (Mount p) st"
  have m: "st1 = st\<lparr>hasFetchedLogsRef := True, tasks := tasks st @ [AwaitLogLines p],
                     effects := effects st @ [LogLines i name]\<rparr>"
    unfolding st1_def i_def using assms
    by (simp add: mount_def cachedLogLines_def settle_def Let_def)
  have w1: "waiting i st1 = AwaitLogLines p" by (simp add: m waiting_def i_def)
  have a: "newEffects st st1 = [LogLines i name] \<and> waiting i st1 = AwaitLogLines p
           \<and> history st1 = history st"
    using w1 by (simp add: m newEffects_def)
  have b: "history (step pf (LogLinesDone i (Inr lines)) st1)
             = map (\<lambda>line. \<lparr>output_text = line\<rparr>) lines
         \<and> (socketRef st = None \<longrightarrow>
              newEffects st1 (step pf (LogLinesDone i (Inr lines)) st1)
                = [CreateTicket i (Some service)]
            \<and> waiting i (step pf (LogLinesDone i (Inr lines)) st1) = AwaitTicket p)" for lines
    using w1 assms(2)
    by (simp add: cachedLogLines_resume_def initializeSocket_def settle_def newEffects_def
          waiting_def m i_def)
  have f2: "step pf (LogLinesDone i (Inl e)) st1 =
      (if socketRef st = None
       then st1\<lparr>tasks := tasks st @ [AwaitTicket p],
                effects := effects st1 @ [Toast ''fetchError'', CreateTicket i (Some service)]\<rparr>
       else st1\<lparr>tasks := tasks st @ [Finished],
                effects := effects st1 @ [Toast ''fetchError'']\<rparr>)" for e
    using w1 assms(2)
    by (simp add: cachedLogLines_resume_def initializeSocket_def settle_def toast_error_def
          m i_def)
  have c: "history (step pf (LogLinesDone i (Inl e)) st1) = history st
         \<and> (socketRef st = None \<longrightarrow>
              newEffects st1 (step pf (LogLinesDone i (Inl e)) st1)
                = [Toast ''fetchError'', CreateTicket i (Some service)]
            \<and> waiting i (step pf (LogLinesDone i (Inl e)) st1) = AwaitTicket p)" for e
    unfolding f2 by (simp add: newEffects_def waiting_def m i_def)
  have d: "let k = length (sockets st);
               s = run pf [Mount p, LogLinesDone i (Inl e), TicketDone i (Inr ticket),
                           CookiesDone i (Inr cookies), SocketOpen k] st
           in history s = history st \<and> socketRef s = Some k
            \<and> readyState (sockets s ! k) = OPEN
            \<and> url (sockets s ! k) = socketUrlOf p addr ticket
            \<and> history (step pf (SocketMessage k d) s) = history st @ [\<lparr>output_text = d\<rparr>]"
    if h: "socketRef st = None \<and> decodeURIComponent pf (cookieAdd cookies) = Some addr
                 \<and> secure addr = secure (origin pf)
                 \<and> constructible pf (socketUrlOf p addr ticket)"
    for e ticket cookies addr d
  proof -
    define st2 where "st2 = step pf (LogLinesDone i (Inl e)) st1"
    have e2: "st2 = st1\<lparr>tasks := tasks st @ [AwaitTicket p],
                effects := effects st1 @ [Toast ''fetchError'', CreateTicket i (Some service)]\<rparr>"
      unfolding st2_def f2 using h by simp
    have w2: "waiting i st2 = AwaitTicket p" by (simp add: e2 waiting_def i_def)
    define st3 where "st3 = step pf (TicketDone i (Inr ticket)) st2"
    have e3: "st3 = st2\<lparr>tasks := tasks st @ [AwaitCookies p ticket],
                effects := effects st2 @ [GetCookies i]\<rparr>"
      unfolding st3_def using w2
      by (simp add: initializeSocket_ticket_def settle_def e2 i_def)
    have w3: "waiting i st3 = AwaitCookies p ticket" by (simp add: e3 waiting_def i_def e2)
    define st4 where "st4 = step pf (CookiesDone i (Inr cookies)) st3"
    have e4: "st4 = settle i Finished
             (st3\<lparr>effects := effects st3 @ [NewWebSocket i (socketUrlOf p addr ticket)],
                 socketRef := Some (length (sockets st3)),
                 sockets := sockets st3 @
                    [\<lparr>url = socketUrlOf p addr ticket, readyState = CONNECTING,
                      onmessage = True, onerror = True\<rparr>]\<rparr>)"
      unfolding st4_def using guard_pass_step [OF w3, of pf cookies addr] h by simp
    have s3: "sockets st3 = sockets st" "history st3 = history st"
      by (simp_all add: e3 e2 m)
    define st5 where "st5 = step pf (SocketOpen (length (sockets st))) st4"
    have e5: "history st5 = history st \<and> socketRef st5 = Some (length (sockets st))
        \<and> readyState (sockets st5 ! length (sockets st)) = OPEN
        \<and> url (sockets st5 ! length (sockets st)) = socketUrlOf p addr ticket
        \<and> onmessage (sockets st5 ! length (sockets st))
        \<and> length (sockets st) < length (sockets st5)"
      unfolding st5_def by (simp add: e4 settle_def s3)
    have e6: "history (step pf (SocketMessage (length (sockets st)) d) st5)
                = history st @ [\<lparr>output_text = d\<rparr>]"
      using e5 by (simp add: socket_onmessage_def)
    have r: "run pf [Mount p, LogLinesDone i (Inl e), TicketDone i (Inr ticket),
                           CookiesDone i (Inr cookies), SocketOpen (length (sockets st))] st = st5"
      by (simp only: run.simps st5_def st4_def st3_def st2_def st1_def)
    show ?thesis unfolding Let_def r using e5 e6 by simp
  qed
  show ?thesis
    unfolding Let_def i_def [symmetric] st1_def [symmetric]
    using a b c d [unfolded Let_def] by blast
qed

section \<open>The log buffer\<close>

text \<open>
  C6. Whatever the buffer holds and whatever filter is active, the export is the whole
  buffer, its texts joined by newlines. After seeding \<open>a\<close>, \<open>b ERROR\<close>, \<open>c\<close> and choosing
  the filter \<open>ERROR\<close>, the view shows one line and the export has all three.
\<close>

theorem export_ignores_filter:
  "downloadLogs (st\<lparr>filterSt := f\<rparr>) =
     (''console-logs.txt'', join [CHR 0x0A] (map output_text (history st)))
   \<and> (let s = run pf [Mount serviceProps, LogLinesDone 0 (Inr [''a'', ''b ERROR'', ''c'']),
                      SetFilter ''ERROR''] initial
      in map output_text (filteredHistory s) = [''b ERROR'']
         \<and> snd (downloadLogs s) = ''a'' @ [CHR 0x0A] @ ''b ERROR'' @ [CHR 0x0A] @ ''c'')"
proof (rule conjI)
  show "downloadLogs (st\<lparr>filterSt := f\<rparr>) =
     (''console-logs.txt'', join [CHR 0x0A] (map output_text (history st)))"
    by (simp add: downloadLogs_def)
next
  show "let s = run pf [Mount serviceProps, LogLinesDone 0 (Inr [''a'', ''b ERROR'', ''c'']),
                      SetFilter ''ERROR''] initial
      in map output_text (filteredHistory s) = [''b ERROR'']
         \<and> snd (downloadLogs s) = ''a'' @ [CHR 0x0A] @ ''b ERROR'' @ [CHR 0x0A] @ ''c''"
    by code_simp
qed

text \<open>
  C7. The code holds the filter as one string and writes the filter that shows
  everything as the word \<open>ALL\<close>; every other string is a level. For every level \<open>L\<close>
  the filtered view is the buffer restricted to the entries whose text contains \<open>L\<close>,
  letter case ignored: a subsequence of the buffer, in the buffer's order, and the
  buffer is not changed. With the filter \<open>ALL\<close> the view is the whole buffer.
\<close>

theorem filtered_view:
  assumes "L \<noteq> ''ALL''"
  shows "filteredHistory (st\<lparr>filterSt := L\<rparr>) =
           filter (\<lambda>e. containsLevel (output_text e) L) (history st)
       \<and> subseq (filteredHistory (st\<lparr>filterSt := L\<rparr>)) (history st)
       \<and> (\<forall>e. e \<in> set (filteredHistory (st\<lparr>filterSt := L\<rparr>)) \<longleftrightarrow>
               e \<in> set (history st) \<and> containsLevel (output_text e) L)
       \<and> filteredHistory (st\<lparr>filterSt := ''ALL''\<rparr>) = history st"
  using assms by (simp add: filteredHistory_def containsLevel_code)

theorem filtered_view_witness:
  "''ERROR'' \<noteq> ''ALL''
   \<and> filteredHistory
        (initial\<lparr>history := [\<lparr>output_text = ''a''\<rparr>, \<lparr>output_text = ''b ERROR''\<rparr>,
                              \<lparr>output_text = ''c error''\<rparr>],
                 filterSt := ''ERROR''\<rparr>)
       = [\<lparr>output_text = ''b ERROR''\<rparr>, \<lparr>output_text = ''c error''\<rparr>]
   \<and> containsLevel ''c error'' ''ERROR'' \<and> \<not> containsLevel ''a'' ''ERROR''
   \<and> filteredHistory
        (initial\<lparr>history := [\<lparr>output_text = [CHR 0xC9]\<rparr>, \<lparr>output_text = ''e''\<rparr>],
                 filterSt := [CHR 0xE9]\<rparr>)
       = [\<lparr>output_text = [CHR 0xC9]\<rparr>]"
proof -
  define st where "st = initial\<lparr>history := [\<lparr>output_text = ''a''\<rparr>,
      \<lparr>output_text = ''b ERROR''\<rparr>, \<lparr>output_text = ''c error''\<rparr>]\<rparr>"
  define su where "su = initial\<lparr>history := [\<lparr>output_text = [CHR 0xC9]\<rparr>,
      \<lparr>output_text = ''e''\<rparr>]\<rparr>"
  have h: "''ERROR'' \<noteq> ''ALL''" by simp
  have hu: "[CHR 0xE9] \<noteq> ''ALL''" by simp
  have c: "containsLevel ''c error'' ''ERROR'' \<and> \<not> containsLevel ''a'' ''ERROR''"
    unfolding containsLevel_code by code_simp
  have f: "filter (\<lambda>e. containsLevel (output_text e) ''ERROR'') (history st)
      = [\<lparr>output_text = ''b ERROR''\<rparr>, \<lparr>output_text = ''c error''\<rparr>]"
    unfolding containsLevel_code st_def by code_simp
  have fu: "filter (\<lambda>e. containsLevel (output_text e) [CHR 0xE9]) (history su)
      = [\<lparr>output_text = [CHR 0xC9]\<rparr>]"
    unfolding containsLevel_code su_def by code_simp
  from filtered_view [OF h, of st] f
  have a: "filteredHistory (st\<lparr>filterSt := ''ERROR''\<rparr>)
      = [\<lparr>output_text = ''b ERROR''\<rparr>, \<lparr>output_text = ''c error''\<rparr>]"
    by simp
  from filtered_view [OF hu, of su] fu
  have b: "filteredHistory (su\<lparr>filterSt := [CHR 0xE9]\<rparr>) = [\<lparr>output_text = [CHR 0xC9]\<rparr>]"
    by simp
  show ?thesis
    using h a b c unfolding st_def su_def by (simp only: simp_thms)
qed

section \<open>The server-side request helpers\<close>

text \<open>
  C9. When the bearer credential or the endpoint address is absent from the session,
  every request helper, ticket issuance included, fails with \<open>Unauthorized\<close> and has sent
  nothing.
\<close>

theorem unauthorized_before_network:
  assumes "absent cookie ''at'' \<or> absent cookie ''add''"
  shows "serverApiGet sv cookie u params = ([], Inl Unauthorized)
       \<and> serverApiPost sv cookie u body = ([], Inl Unauthorized)
       \<and> serverAuthApi_createTicket sv cookie t = ([], Inl Unauthorized)
       \<and> serverAuthApi_getCookies sv cookie = ([], Inl Unauthorized)
       \<and> serverServiceApi_logLines sv cookie ident = ([], Inl Unauthorized)"
  using assms
  by (auto simp: absent_def truthy_def serverApiGet_def serverApiPost_def
        serverAuthApi_createTicket_def serverAuthApi_getCookies_def
        serverServiceApi_logLines_def split: option.splits)

theorem unauthorized_before_network_witness:
  "absent [(''add'', ''http://node:2812'')] ''at''
   \<and> serverApiGet exampleServer [(''add'', ''http://node:2812'')] ''/service'' None
       = ([], Inl Unauthorized)
   \<and> serverAuthApi_createTicket exampleServer [(''add'', ''http://node:2812'')] node
       = ([], Inl Unauthorized)
   \<and> fst (serverAuthApi_createTicket exampleServer
            [(''at'', ''jwt''), (''add'', ''http://node:2812'')] node)
       = [\<lparr>req_method = ''POST'', req_url = ''http://node:2812/api/auth/ticket'',
           req_authorization = ''Bearer jwt'', req_body = Some ''{}''\<rparr>]"
proof -
  have h: "absent [(''add'', ''http://node:2812'')] ''at''"
    by (simp add: absent_def truthy_def)
  have r: "fst (serverAuthApi_createTicket exampleServer
            [(''at'', ''jwt''), (''add'', ''http://node:2812'')] node)
       = [\<lparr>req_method = ''POST'', req_url = ''http://node:2812/api/auth/ticket'',
           req_authorization = ''Bearer jwt'', req_body = Some ''{}''\<rparr>]"
    by code_simp
  from h have "absent [(''add'', ''http://node:2812'')] ''at''
      \<or> absent [(''add'', ''http://node:2812'')] ''add''" by simp
  from unauthorized_before_network [OF this, of exampleServer "''/service''" None _ node] h r
  show ?thesis by simp
qed

end
